theory Spec2Isabelle
  imports Complex_Main
begin

section \<open>Errors\<close>

text \<open>
  The exceptions that the modelled code, NumPy and OpenCV raise. Every function that can raise
  returns \<open>error + 'a\<close>, with \<open>Inl\<close> for the exception.
\<close>

datatype error =
    ValueError string
  | ZeroDivisionError
  | IndexError
  | Cv2Error

section \<open>Arrays\<close>

text \<open>
  A four-dimensional \<^verbatim>\<open>numpy.ndarray\<close>: its shape and its buffer in C (row-major) order.
  Entries are compared and copied only, so they are real numbers here; NaN and the infinities
  are outside the model. The type has exactly four dimensions, so the two assertions at the
  head of \<^verbatim>\<open>get_max_preds\<close> hold for every value of it.
\<close>

record ndarray4 =
  shape :: "nat \<times> nat \<times> nat \<times> nat"
  data :: "real list"

definition wf_ndarray4 :: "ndarray4 \<Rightarrow> bool" where
  "wf_ndarray4 a = (case shape a of (n, k, h, w) \<Rightarrow> length (data a) = n * k * h * w)"

text \<open>
  \<^verbatim>\<open>a.reshape((batch_size, num_joints, -1))\<close>. NumPy cannot infer the last dimension when
  the known ones multiply to zero, and raises. Row \<open>(i, j)\<close> of the result is the \<open>j\<close>-th
  joint of the \<open>i\<close>-th sample, flattened in row-major order.
\<close>

definition reshape3 :: "ndarray4 \<Rightarrow> error + real list list list" where
  "reshape3 a =
     (case shape a of (n, k, h, w) \<Rightarrow>
        if n * k = 0 then Inl (ValueError ''cannot reshape array of size 0'')
        else let m = length (data a) div (n * k)
             in Inr (map (\<lambda>i. map (\<lambda>j. take m (drop ((i * k + j) * m) (data a))) [0..<k]) [0..<n]))"

text \<open>
  \<^verbatim>\<open>numpy.argmax\<close> on one row: a scan that replaces the running maximum only by a strictly
  larger entry. An empty row raises.
\<close>

fun argmax_loop :: "real list \<Rightarrow> nat \<Rightarrow> real \<Rightarrow> nat \<Rightarrow> nat" where
  "argmax_loop [] i mp max_ind = max_ind"
| "argmax_loop (x # xs) i mp max_ind =
     (if \<not> x \<le> mp then argmax_loop xs (Suc i) x i else argmax_loop xs (Suc i) mp max_ind)"

definition argmax :: "real list \<Rightarrow> error + nat" where
  "argmax xs =
     (case xs of
        [] \<Rightarrow> Inl (ValueError ''attempt to get argmax of an empty sequence'')
      | x # ys \<Rightarrow> Inr (argmax_loop ys 1 x 0))"

text \<open>\<^verbatim>\<open>numpy.amax\<close> and \<^verbatim>\<open>ndarray.min\<close> on one row; an empty row raises.\<close>

definition amax :: "real list \<Rightarrow> error + real" where
  "amax xs =
     (case xs of
        [] \<Rightarrow> Inl (ValueError ''zero-size array to reduction operation maximum which has no identity'')
      | x # ys \<Rightarrow> Inr (fold max ys x))"

definition amin :: "real list \<Rightarrow> error + real" where
  "amin xs =
     (case xs of
        [] \<Rightarrow> Inl (ValueError ''zero-size array to reduction operation minimum which has no identity'')
      | x # ys \<Rightarrow> Inr (fold min ys x))"

text \<open>A reduction along the last axis applies the row function to every row; the first error wins.\<close>

fun collect :: "('e + 'a) list \<Rightarrow> 'e + 'a list" where
  "collect [] = Inr []"
| "collect (r # rs) =
     (case r of
        Inl e \<Rightarrow> Inl e
      | Inr v \<Rightarrow> (case collect rs of Inl e \<Rightarrow> Inl e | Inr vs \<Rightarrow> Inr (v # vs)))"

definition along_axis2 :: "(real list \<Rightarrow> error + 'a) \<Rightarrow> real list list list \<Rightarrow> error + 'a list list" where
  "along_axis2 f a = collect (map (\<lambda>row. collect (map f row)) a)"

section \<open>Binary32 arithmetic on the flat index\<close>

text \<open>
  \<^verbatim>\<open>np.tile(idx, (1, 1, 2)).astype(np.float32)\<close> converts the integer index to binary32, which
  has a 24-bit significand and rounds to nearest, ties to even. \<open>f32_ulp n\<close> is the spacing of
  binary32 numbers around \<open>n\<close> (one below \<open>2^24\<close>), and \<open>f32_of_nat n\<close> is the integer that
  the converted number holds.
\<close>

function f32_ulp :: "nat \<Rightarrow> nat" where
  "f32_ulp n = (if n < 2 ^ 24 then 1 else 2 * f32_ulp (n div 2))"
  by pat_completeness auto
termination
  by (relation "measure id") auto

declare f32_ulp.simps [simp del]

definition round_half_even :: "nat \<Rightarrow> nat \<Rightarrow> nat" where
  "round_half_even n d =
     (let q = n div d; r = n mod d
      in if 2 * r < d \<or> (2 * r = d \<and> even q) then q else q + 1)"

definition f32_of_nat :: "nat \<Rightarrow> nat" where
  "f32_of_nat n = (let u = f32_ulp n in round_half_even n u * u)"

text \<open>
  The binary32 quotient of two integer-valued binary32 numbers, correctly rounded. A quotient
  of at least \<open>2^23\<close> is rounded to a multiple of its spacing; a smaller one is scaled by the
  power of two \<open>f32_scale a b\<close> that brings its significand to 24 bits. The remainder
  \<^verbatim>\<open>%\<close> of two such numbers is exact. A zero divisor is not reached: a zero width makes
  every row empty, and \<open>argmax\<close> raises first.

  The Python integer \<^verbatim>\<open>width\<close> enters both operations as a binary32 operand. NumPy releases
  with value-based casting compute in binary64 instead when the width is 65536 or more; the
  two agree for every smaller width, and whenever the map has at most \<open>2^24\<close> entries.
\<close>

function f32_scale :: "nat \<Rightarrow> nat \<Rightarrow> nat" where
  "f32_scale a b = (if a = 0 \<or> 2 ^ 23 * b \<le> a then 0 else Suc (f32_scale (2 * a) b))"
  by pat_completeness auto
termination
  by (relation "measure (\<lambda>(a, b). 2 ^ 23 * b - a)") auto

declare f32_scale.simps [simp del]

definition f32_div :: "nat \<Rightarrow> nat \<Rightarrow> real" where
  "f32_div a b =
     (if a = 0 \<or> b = 0 then 0
      else if 2 ^ 23 * b \<le> a then
        (let u = f32_ulp (a div b) in real (round_half_even a (b * u) * u))
      else
        (let k = f32_scale a b in real (round_half_even (a * 2 ^ k) b) / 2 ^ k))"

section \<open>The heatmap decoder\<close>

text \<open>
  Lines 242 to 250 for one joint: the index is tiled and cast to binary32, the first copy is
  reduced modulo the width, the second is divided by the width and floored, and both are
  multiplied by the mask \<^verbatim>\<open>maxval > 0.0\<close>. Every value stored in \<^verbatim>\<open>preds\<close> is an
  integer-valued binary32 number; the model keeps the integer.
\<close>

definition decode :: "nat \<Rightarrow> nat \<Rightarrow> real \<Rightarrow> int \<times> int" where
  "decode width idx maxval =
     (let p = f32_of_nat idx;
          w = f32_of_nat width;
          x = int (p mod w);
          y = \<lfloor>f32_div p w\<rfloor>;
          pred_mask = (if maxval > 0 then 1 else 0)
      in (x * pred_mask, y * pred_mask))"

text \<open>
  \<^verbatim>\<open>get_max_preds(batch_heatmaps)\<close> returns \<^verbatim>\<open>preds\<close>, of shape \<open>(N, K, 2)\<close>, as a list
  of lists of pairs, and \<^verbatim>\<open>maxvals\<close>, of shape \<open>(N, K, 1)\<close>, as a list of lists.
\<close>

definition get_max_preds :: "ndarray4 \<Rightarrow> error + ((int \<times> int) list list \<times> real list list)" where
  "get_max_preds batch_heatmaps =
     (case shape batch_heatmaps of (batch_size, num_joints, height, width) \<Rightarrow>
       (case reshape3 batch_heatmaps of
          Inl e \<Rightarrow> Inl e
        | Inr heatmaps_reshaped \<Rightarrow>
           (case along_axis2 argmax heatmaps_reshaped of
              Inl e \<Rightarrow> Inl e
            | Inr idx \<Rightarrow>
               (case along_axis2 amax heatmaps_reshaped of
                  Inl e \<Rightarrow> Inl e
                | Inr maxvals \<Rightarrow>
                    Inr (map2 (map2 (decode width)) idx maxvals, maxvals)))))"

text \<open>
  The vocabulary of the claims: the flattened map of joint \<open>k\<close> of sample \<open>n\<close>, its maximum,
  and the first position in row-major order at which a value occurs.
\<close>

definition joint_map :: "ndarray4 \<Rightarrow> nat \<Rightarrow> nat \<Rightarrow> real list" where
  "joint_map a n k =
     (case shape a of (N, K, H, W) \<Rightarrow> take (H * W) (drop ((n * K + k) * (H * W)) (data a)))"

definition first_index :: "real list \<Rightarrow> real \<Rightarrow> nat" where
  "first_index xs v = length (takeWhile (\<lambda>x. x \<noteq> v) xs)"

definition joint_max :: "ndarray4 \<Rightarrow> nat \<Rightarrow> nat \<Rightarrow> real" where
  "joint_max a n k = Max (set (joint_map a n k))"

definition joint_first :: "ndarray4 \<Rightarrow> nat \<Rightarrow> nat \<Rightarrow> nat" where
  "joint_first a n k = first_index (joint_map a n k) (joint_max a n k)"

section \<open>Binary64 arithmetic on learning rates and step counts\<close>

text \<open>
  A Python float is a binary64 number. \<open>B64 m e\<close> denotes \<open>m * 2^e\<close>; the operations
  below return the significand with 53 bits, or with fewer at the least exponent \<open>-1074\<close>
  (the subnormal numbers). NaN and the infinities are outside the model; the products formed
  here have a factor of at most one and cannot overflow.
\<close>

datatype binary64 = B64 int int

definition b64_val :: "binary64 \<Rightarrow> real" where
  "b64_val x =
     (case x of B64 m e \<Rightarrow>
        if 0 \<le> e then real_of_int m * 2 ^ nat e else real_of_int m / 2 ^ nat (- e))"

function bitlen :: "nat \<Rightarrow> nat" where
  "bitlen n = (if n = 0 then 0 else Suc (bitlen (n div 2)))"
  by pat_completeness auto
termination
  by (relation "measure id") auto

declare bitlen.simps [simp del]

text \<open>\<open>b64_exponent a b\<close> is the integer part of the binary logarithm of \<open>a / b\<close>.\<close>

definition b64_exponent :: "nat \<Rightarrow> nat \<Rightarrow> int" where
  "b64_exponent a b =
     (let k = int (bitlen a) - int (bitlen b)
      in if (if 0 \<le> k then b * 2 ^ nat k \<le> a else b \<le> a * 2 ^ nat (- k)) then k else k - 1)"

text \<open>
  The binary64 number nearest to the fraction \<open>n / d\<close>, ties to even. It is the value of a
  decimal literal (\<^verbatim>\<open>0.1\<close> is \<open>b64_of_ratio 1 10\<close>), of the true division of two
  integers, and, through \<open>b64_of_scaled\<close>, of every operation below, each of which rounds
  its exact result once.
\<close>

definition b64_of_ratio :: "int \<Rightarrow> nat \<Rightarrow> binary64" where
  "b64_of_ratio n d =
     (let a = nat \<bar>n\<bar> in
      if a = 0 then B64 0 (- 1074)
      else
        (let q = max (b64_exponent a d - 52) (- 1074);
             r = (if 0 \<le> q then round_half_even a (d * 2 ^ nat q)
                  else round_half_even (a * 2 ^ nat (- q)) d)
         in if r = 2 ^ 53 then B64 (sgn n * 2 ^ 52) (q + 1) else B64 (sgn n * int r) q))"

definition b64_of_scaled :: "int \<Rightarrow> int \<Rightarrow> binary64" where
  "b64_of_scaled m e =
     (if 0 \<le> e then b64_of_ratio (m * 2 ^ nat e) 1 else b64_of_ratio m (2 ^ nat (- e)))"

definition b64_mul :: "binary64 \<Rightarrow> binary64 \<Rightarrow> binary64" where
  "b64_mul x y =
     (case x of B64 m1 e1 \<Rightarrow> (case y of B64 m2 e2 \<Rightarrow> b64_of_scaled (m1 * m2) (e1 + e2)))"

definition b64_add :: "binary64 \<Rightarrow> binary64 \<Rightarrow> binary64" where
  "b64_add x y =
     (case x of B64 m1 e1 \<Rightarrow> (case y of B64 m2 e2 \<Rightarrow>
        (let e = min e1 e2
         in b64_of_scaled (m1 * 2 ^ nat (e1 - e) + m2 * 2 ^ nat (e2 - e)) e)))"

text \<open>
  \<^verbatim>\<open>x ** i\<close> for a float and a small non-negative integer: the exact power, rounded once,
  which is what the platform's \<^verbatim>\<open>pow\<close> returns for the three powers of \<^verbatim>\<open>0.1\<close> taken here.
\<close>

definition b64_pow :: "binary64 \<Rightarrow> nat \<Rightarrow> binary64" where
  "b64_pow x i = (case x of B64 m e \<Rightarrow> b64_of_scaled (m ^ i) (e * int i))"

text \<open>The true division \<^verbatim>\<open>a / b\<close> of two Python integers, for a non-zero divisor.\<close>

definition b64_div_int :: "int \<Rightarrow> int \<Rightarrow> binary64" where
  "b64_div_int a b = b64_of_ratio (a * sgn b) (nat \<bar>b\<bar>)"

text \<open>Python's \<^verbatim>\<open>int(x)\<close> on a float truncates towards zero.\<close>

definition py_int :: "binary64 \<Rightarrow> int" where
  "py_int x =
     (case x of B64 m e \<Rightarrow>
        if 0 \<le> e then m * 2 ^ nat e else sgn m * (\<bar>m\<bar> div 2 ^ nat (- e)))"

section \<open>The optimizer builder\<close>

text \<open>
  \<^verbatim>\<open>optimizer_setting(args, params)\<close> reads \<^verbatim>\<open>params["learning_strategy"]\<close>,
  \<^verbatim>\<open>params["total_images"]\<close> and \<^verbatim>\<open>params["lr"]\<close>. The dictionaries are built by
  \<^verbatim>\<open>train\<close> with exactly these keys, so they are records here.
\<close>

record learning_strategy =
  ls_name :: string
  ls_batch_size :: int

record params =
  p_total_images :: int
  p_lr :: binary64
  p_num_epochs :: int
  p_learning_strategy :: learning_strategy

datatype optimizer =
    AdamOptimizer "int list" "binary64 list"
  | Momentum binary64 binary64 binary64

text \<open>
  Line 55, \<^verbatim>\<open>step = int(total_images / batch_size + 1)\<close>: true division, one added, truncated,
  all in binary64. Division by zero raises.
\<close>

definition steps_per_epoch :: "int \<Rightarrow> int \<Rightarrow> error + int" where
  "steps_per_epoch total_images batch_size =
     (if batch_size = 0 then Inl ZeroDivisionError
      else Inr (py_int (b64_add (b64_div_int total_images batch_size) (b64_of_ratio 1 1))))"

definition lr_drop_ratio :: binary64 where
  "lr_drop_ratio = b64_of_ratio 1 10"

definition optimizer_setting :: "params \<Rightarrow> error + optimizer" where
  "optimizer_setting ps =
     (let ls = p_learning_strategy ps in
      if ls_name ls = ''piecewise_decay'' then
        (case steps_per_epoch (p_total_images ps) (ls_batch_size ls) of
           Inl e \<Rightarrow> Inl e
         | Inr step \<Rightarrow>
             let epochs = [91, 121];
                 bd = map (\<lambda>e. step * e) epochs;
                 base_lr = p_lr ps;
                 lr = map (\<lambda>i. b64_mul base_lr (b64_pow lr_drop_ratio i)) [0..<length bd + 1]
             in Inr (AdamOptimizer bd lr))
      else Inr (Momentum (p_lr ps) (b64_of_ratio 9 10) (b64_of_ratio 5 10000)))"

section \<open>The visualisation composer\<close>

text \<open>
  \<^verbatim>\<open>batch_image\<close> is the batch of input frames, of shape \<open>[batch_size, 3, height, width]\<close>
  as \<^verbatim>\<open>train\<close> feeds it: its shape without the channel count, and its buffer.
\<close>

record image_batch =
  img_shape :: "nat \<times> nat \<times> nat"
  img_data :: "real list"

definition wf_image_batch :: "image_batch \<Rightarrow> bool" where
  "wf_image_batch b = (case img_shape b of (n, h, w) \<Rightarrow> length (img_data b) = n * 3 * h * w)"

text \<open>
  Lines 174 to 179. NumPy's division does not raise on a zero divisor, it yields an infinity or
  NaN; that outcome is \<open>None\<close> here, so that dividing by zero is visible in the result.
\<close>

definition np_divide :: "real \<Rightarrow> real \<Rightarrow> real option" where
  "np_divide x d = (if d = 0 then None else Some (x / d))"

definition norm_denominator :: "real \<Rightarrow> real \<Rightarrow> real" where
  "norm_denominator mn mx = mx - mn + 1 / 100000"

definition normalize_pixels :: "real list \<Rightarrow> error + real option list" where
  "normalize_pixels px =
     (case amin px of
        Inl e \<Rightarrow> Inl e
      | Inr mn \<Rightarrow>
         (case amax px of
            Inl e \<Rightarrow> Inl e
          | Inr mx \<Rightarrow> Inr (map (\<lambda>x. np_divide (x + - mn) (norm_denominator mn mx)) px)))"

text \<open>
  The calls into OpenCV, in the order the function issues them. Pixel contents are not tracked:
  a call is recorded with the sample and joint it belongs to, the marker centre, the target
  size, and for \<^verbatim>\<open>cv2.imwrite\<close> the file name and the shape of the array written.
\<close>

datatype cv2_call =
    Cv2Resize nat "nat \<times> nat"
  | Cv2Circle nat nat "int \<times> int"
  | Cv2ApplyColorMap nat nat
  | Cv2ImWrite string "nat \<times> nat \<times> nat"

text \<open>
  The body of the loop over the joints (lines 203 to 217): a marker on the resized frame, the
  colour map, a marker on the blended image. The blended image has the shape of the slice of
  \<^verbatim>\<open>grid_image\<close> that it is assigned to.
\<close>

definition draw_joint :: "(int \<times> int) list list \<Rightarrow> nat \<Rightarrow> nat \<Rightarrow> cv2_call list" where
  "draw_joint preds i j =
     [Cv2Circle i j (preds ! i ! j), Cv2ApplyColorMap i j, Cv2Circle i j (preds ! i ! j)]"

text \<open>
  The loop over the samples (lines 191 to 219). \<^verbatim>\<open>batch_image[i]\<close> raises when the image
  batch has no \<open>i\<close>-th frame, and \<^verbatim>\<open>cv2.resize\<close> rejects an empty frame.
\<close>

fun draw_samples ::
  "image_batch \<Rightarrow> (int \<times> int) list list \<Rightarrow> nat \<Rightarrow> nat \<times> nat \<Rightarrow> nat list
     \<Rightarrow> (error + unit) \<times> cv2_call list" where
  "draw_samples img preds num_joints dsize [] = (Inr (), [])"
| "draw_samples img preds num_joints dsize (i # rest) =
     (case img_shape img of (count, h, w) \<Rightarrow>
        if count \<le> i then (Inl IndexError, [])
        else if h * w = 0 then (Inl Cv2Error, [])
        else
          (let calls = Cv2Resize i dsize # concat (map (draw_joint preds i) [0..<num_joints])
           in case draw_samples img preds num_joints dsize rest of
                (r, later) \<Rightarrow> (r, calls @ later)))"

text \<open>
  \<^verbatim>\<open>save_batch_heatmaps(batch_image, batch_heatmaps, file_name, normalize)\<close> returns how it
  ended and the OpenCV calls it made. \<^verbatim>\<open>grid_image\<close> is allocated with its final shape at
  line 184; the slice assignments fill it and do not change the shape.

  \<^verbatim>\<open>cv2.imwrite\<close> chooses an encoder by the extension of the file name and raises
  \<^verbatim>\<open>cv2.error\<close> when the OpenCV build has none, as for a name without an extension.
  Which names have an encoder belongs to the build: it is the parameter \<open>has_writer\<close>.
  \<open>Cv2ImWrite\<close> records the array handed to an encoder; whether the file system then
  stores the file is outside the model.
\<close>

definition save_batch_heatmaps ::
  "(string \<Rightarrow> bool) \<Rightarrow> image_batch \<Rightarrow> ndarray4 \<Rightarrow> string \<Rightarrow> bool
     \<Rightarrow> (error + unit) \<times> cv2_call list" where
  "save_batch_heatmaps has_writer batch_image batch_heatmaps file_name normalize' =
     (case (if normalize' then normalize_pixels (img_data batch_image)
            else Inr (map Some (img_data batch_image))) of
        Inl e \<Rightarrow> (Inl e, [])
      | Inr pixels \<Rightarrow>
         (case shape batch_heatmaps of (batch_size, num_joints, heatmap_height, heatmap_width) \<Rightarrow>
            (let grid_image = (batch_size * heatmap_height, (num_joints + 1) * heatmap_width, 3)
             in case get_max_preds batch_heatmaps of
                  Inl e \<Rightarrow> (Inl e, [])
                | Inr (preds, maxvals) \<Rightarrow>
                   (case draw_samples batch_image preds num_joints
                           (heatmap_width, heatmap_height) [0..<batch_size] of
                      (Inl e, calls) \<Rightarrow> (Inl e, calls)
                    | (Inr u, calls) \<Rightarrow>
                        if has_writer file_name
                        then (Inr (), calls @ [Cv2ImWrite file_name grid_image])
                        else (Inl Cv2Error, calls)))))"

section \<open>The training script\<close>

text \<open>The command-line arguments (lines 33 to 44).\<close>

record args =
  a_batch_size :: int
  a_dataset :: string
  a_use_gpu :: bool
  a_num_epochs :: int
  a_total_images :: int
  a_kp_dim :: int
  a_model_save_dir :: string
  a_with_mem_opt :: bool
  a_pretrained_model :: "string option"
  a_checkpoint :: "string option"
  a_lr :: binary64
  a_lr_strategy :: string

datatype reader = CocoReader | MpiiReader

text \<open>
  Lines 79 to 92 of \<^verbatim>\<open>train\<close>: the reader module, \<^verbatim>\<open>IMAGE_SIZE\<close>, \<^verbatim>\<open>HEATMAP_SIZE\<close> and
  the updated arguments, or the \<^verbatim>\<open>ValueError\<close>.
\<close>

definition select_dataset :: "args \<Rightarrow> error + (reader \<times> int list \<times> int list \<times> args)" where
  "select_dataset a =
     (if a_dataset a = ''coco'' then
        Inr (CocoReader, [288, 384], [72, 96], a\<lparr>a_kp_dim := 17, a_total_images := 144406\<rparr>)
      else if a_dataset a = ''mpii'' then
        Inr (MpiiReader, [384, 384], [96, 96], a\<lparr>a_kp_dim := 16, a_total_images := 22246\<rparr>)
      else Inl (ValueError (''The dataset '' @ a_dataset a @ '' is not supported yet.'')))"

text \<open>
  The calls that \<^verbatim>\<open>train\<close> makes into the framework, into \<^verbatim>\<open>optimizer_setting\<close> and into
  \<^verbatim>\<open>save_batch_heatmaps\<close>, in order. The framework is an external collaborator: its calls
  are recorded, and they are taken to return.
\<close>

datatype event =
    PrintArguments args
  | LayersData string "int list"
  | BuildResNet int int
  | OptimizerSetting params
  | Minimize optimizer
  | MemoryOptimize
  | RunStartup bool
  | LoadVars string
  | LoadPersistables string
  | BatchReader reader int
  | RunBatch nat nat
  | PrintLoss nat nat
  | SaveBatchHeatmaps string bool
  | SavePersistables string nat

text \<open>One iteration of the inner loop (lines 148 to 160).\<close>

definition batch_step :: "nat \<Rightarrow> nat \<Rightarrow> event list" where
  "batch_step pass_id batch_id =
     [RunBatch pass_id batch_id, PrintLoss batch_id pass_id] @
     (if batch_id mod 10 = 0 then [SaveBatchHeatmaps ''visualization@train.jpg'' True] else [])"

text \<open>
  One iteration of the outer loop (lines 147 to 166); \<open>n\<close> is the number of batches that the
  reader yields in this pass.
\<close>

definition epoch :: "string \<Rightarrow> nat \<Rightarrow> nat \<Rightarrow> event list" where
  "epoch model_dir n pass_id =
     concat (map (batch_step pass_id) [0..<n]) @ [SavePersistables model_dir pass_id]"

text \<open>
  \<^verbatim>\<open>train(args)\<close>; \<open>batches p\<close> is the number of batches of pass \<open>p\<close>.
\<close>

definition train :: "(nat \<Rightarrow> nat) \<Rightarrow> args \<Rightarrow> (error + unit) \<times> event list" where
  "train batches args0 =
     (case select_dataset args0 of
        Inl e \<Rightarrow> (Inl e, [])
      | Inr (rd, IMAGE_SIZE, HEATMAP_SIZE, a) \<Rightarrow>
         (let setup =
                [PrintArguments a,
                 LayersData ''image'' [3, IMAGE_SIZE ! 1, IMAGE_SIZE ! 0],
                 LayersData ''target'' [a_kp_dim a, HEATMAP_SIZE ! 1, HEATMAP_SIZE ! 0],
                 LayersData ''target_weight'' [a_kp_dim a, 1],
                 BuildResNet 50 (a_kp_dim a)];
              ps = \<lparr>p_total_images = a_total_images a, p_lr = a_lr a,
                     p_num_epochs = a_num_epochs a,
                     p_learning_strategy =
                       \<lparr>ls_name = a_lr_strategy a, ls_batch_size = a_batch_size a\<rparr>\<rparr>
          in case optimizer_setting ps of
               Inl e \<Rightarrow> (Inl e, setup @ [OptimizerSetting ps])
             | Inr opt \<Rightarrow>
                 (Inr (),
                  setup @ [OptimizerSetting ps, Minimize opt] @
                  (if a_with_mem_opt a then [MemoryOptimize] else []) @
                  [RunStartup (a_use_gpu a), LoadVars ''./pretrained/resnet_50/115''] @
                  (case a_checkpoint a of None \<Rightarrow> [] | Some c \<Rightarrow> [LoadPersistables c]) @
                  [BatchReader rd (a_batch_size a)] @
                  concat (map (\<lambda>pass_id.
                      epoch (a_model_save_dir a @ ''/'' @ ''simplebase-'' @ a_dataset a)
                        (batches pass_id) pass_id)
                    [0..<nat (p_num_epochs ps)]))))"

section \<open>Concrete inputs\<close>

definition default_args :: args where
  "default_args =
     \<lparr>a_batch_size = 32, a_dataset = ''mpii'', a_use_gpu = True, a_num_epochs = 140,
      a_total_images = 144406, a_kp_dim = 16, a_model_save_dir = ''output'',
      a_with_mem_opt = True, a_pretrained_model = None, a_checkpoint = None,
      a_lr = b64_of_ratio 1 1000, a_lr_strategy = ''piecewise_decay''\<rparr>"

text \<open>An OpenCV build that encodes JPEG files only, by the extension \<open>.jpg\<close>.\<close>

definition jpg_only :: "string \<Rightarrow> bool" where
  "jpg_only file_name = (drop (length file_name - 4) file_name = ''.jpg'')"

definition frames :: image_batch where
  "frames = \<lparr>img_shape = (1, 1, 2), img_data = [3, 3, 3, 3, 3, 3]\<rparr>"

definition small_batch :: ndarray4 where
  "small_batch = \<lparr>shape = (1, 2, 2, 3), data = [0, 1, 2, 3, 9, 4,  5, 5, 1, 5, 0, - 1]\<rparr>"

definition tall_batch :: "nat \<Rightarrow> ndarray4" where
  "tall_batch i = \<lparr>shape = (1, 1, Suc i, 1), data = replicate i 0 @ [1]\<rparr>"

definition zero_batch :: ndarray4 where
  "zero_batch = \<lparr>shape = (1, 2, 2, 2), data = [0, 0, 0, 0, 0, 0, 0, 0]\<rparr>"

definition tied_batch :: ndarray4 where
  "tied_batch = \<lparr>shape = (1, 1, 2, 2), data = [1, 5, 5, 2]\<rparr>"

definition short_run :: args where
  "short_run = default_args\<lparr>a_num_epochs := 1, a_lr_strategy := ''momentum''\<rparr>"


section \<open>The reductions select the first maximum\<close>

lemma argmax_loop_spec:
  "(argmax_loop xs i mp ind = ind \<and> (\<forall>x\<in>set xs. x \<le> mp)) \<or>
   (\<exists>j<length xs. argmax_loop xs i mp ind = i + j \<and> mp < xs ! j \<and>
       (\<forall>x\<in>set xs. x \<le> xs ! j) \<and> (\<forall>l<j. xs ! l < xs ! j))"
proof (induction xs arbitrary: i mp ind)
  case Nil
  then show ?case by simp
next
  case (Cons x xs)
  show ?case
  proof (cases "x \<le> mp")
    case True
    from Cons.IH [of "Suc i" mp ind] show ?thesis
    proof
      assume "argmax_loop xs (Suc i) mp ind = ind \<and> (\<forall>x\<in>set xs. x \<le> mp)"
      with True show ?thesis by simp
    next
      assume "\<exists>j<length xs. argmax_loop xs (Suc i) mp ind = Suc i + j \<and> mp < xs ! j \<and>
                (\<forall>x\<in>set xs. x \<le> xs ! j) \<and> (\<forall>l<j. xs ! l < xs ! j)"
      then obtain j where j: "j < length xs" "argmax_loop xs (Suc i) mp ind = Suc i + j"
        "mp < xs ! j" "\<forall>x\<in>set xs. x \<le> xs ! j" "\<forall>l<j. xs ! l < xs ! j"
        by blast
      have "\<forall>l<Suc j. (x # xs) ! l < (x # xs) ! Suc j"
        using j True by (auto simp: nth_Cons')
      with j True have "Suc j < length (x # xs) \<and> argmax_loop (x # xs) i mp ind = i + Suc j \<and>
          mp < (x # xs) ! Suc j \<and> (\<forall>y\<in>set (x # xs). y \<le> (x # xs) ! Suc j) \<and>
          (\<forall>l<Suc j. (x # xs) ! l < (x # xs) ! Suc j)"
        by auto
      then show ?thesis by blast
    qed
  next
    case False
    from Cons.IH [of "Suc i" x i] show ?thesis
    proof
      assume "argmax_loop xs (Suc i) x i = i \<and> (\<forall>y\<in>set xs. y \<le> x)"
      with False have "0 < length (x # xs) \<and> argmax_loop (x # xs) i mp ind = i + 0 \<and>
          mp < (x # xs) ! 0 \<and> (\<forall>y\<in>set (x # xs). y \<le> (x # xs) ! 0) \<and>
          (\<forall>l<0. (x # xs) ! l < (x # xs) ! 0)"
        by auto
      then show ?thesis by blast
    next
      assume "\<exists>j<length xs. argmax_loop xs (Suc i) x i = Suc i + j \<and> x < xs ! j \<and>
                (\<forall>x\<in>set xs. x \<le> xs ! j) \<and> (\<forall>l<j. xs ! l < xs ! j)"
      then obtain j where j: "j < length xs" "argmax_loop xs (Suc i) x i = Suc i + j"
        "x < xs ! j" "\<forall>x\<in>set xs. x \<le> xs ! j" "\<forall>l<j. xs ! l < xs ! j"
        by blast
      have "\<forall>l<Suc j. (x # xs) ! l < (x # xs) ! Suc j"
        using j by (auto simp: nth_Cons')
      with j False have "Suc j < length (x # xs) \<and> argmax_loop (x # xs) i mp ind = i + Suc j \<and>
          mp < (x # xs) ! Suc j \<and> (\<forall>y\<in>set (x # xs). y \<le> (x # xs) ! Suc j) \<and>
          (\<forall>l<Suc j. (x # xs) ! l < (x # xs) ! Suc j)"
        by auto
      then show ?thesis by blast
    qed
  qed
qed

lemma argmax_first_max:
  assumes "xs \<noteq> []"
  shows "\<exists>r<length xs. argmax xs = Inr r \<and> (\<forall>x\<in>set xs. x \<le> xs ! r) \<and> (\<forall>l<r. xs ! l < xs ! r)"
proof -
  from assms obtain x ys where xs: "xs = x # ys"
    by (cases xs) auto
  from argmax_loop_spec [of ys 1 x 0] show ?thesis
  proof
    assume "argmax_loop ys 1 x 0 = 0 \<and> (\<forall>y\<in>set ys. y \<le> x)"
    then show ?thesis
      by (auto simp: xs argmax_def)
  next
    assume "\<exists>j<length ys. argmax_loop ys 1 x 0 = 1 + j \<and> x < ys ! j \<and>
              (\<forall>x\<in>set ys. x \<le> ys ! j) \<and> (\<forall>l<j. ys ! l < ys ! j)"
    then obtain j where j: "j < length ys" "argmax_loop ys 1 x 0 = Suc j" "x < ys ! j"
      "\<forall>x\<in>set ys. x \<le> ys ! j" "\<forall>l<j. ys ! l < ys ! j"
      by auto
    have "\<forall>l<Suc j. (x # ys) ! l < (x # ys) ! Suc j"
      using j by (auto simp: nth_Cons')
    with j have "Suc j < length xs \<and> argmax xs = Inr (Suc j) \<and>
        (\<forall>y\<in>set xs. y \<le> xs ! Suc j) \<and> (\<forall>l<Suc j. xs ! l < xs ! Suc j)"
      by (auto simp: xs argmax_def)
    then show ?thesis by blast
  qed
qed

lemma amax_Max: "xs \<noteq> [] \<Longrightarrow> amax xs = Inr (Max (set xs))"
  by (cases xs) (simp_all add: amax_def Max.set_eq_fold [symmetric])

lemma first_index_unique:
  assumes "r < length xs" "xs ! r = v" "\<forall>l<r. xs ! l \<noteq> v"
  shows "first_index xs v = r"
proof -
  have "takeWhile (\<lambda>x. x \<noteq> v) xs = take r xs"
    using assms by (intro takeWhile_eq_take_P_nth) auto
  with assms(1) show ?thesis
    by (simp add: first_index_def)
qed

lemma argmax_first_index:
  assumes "xs \<noteq> []"
  shows "argmax xs = Inr (first_index xs (Max (set xs)))"
proof -
  from argmax_first_max [OF assms] obtain r where r: "r < length xs" "argmax xs = Inr r"
    "\<forall>x\<in>set xs. x \<le> xs ! r" "\<forall>l<r. xs ! l < xs ! r"
    by blast
  have m: "Max (set xs) = xs ! r"
    using r by (intro Max_eqI) auto
  have "first_index xs (Max (set xs)) = r"
    using r by (intro first_index_unique) (auto simp: m)
  with r show ?thesis by simp
qed

lemma first_index_less:
  "xs \<noteq> [] \<Longrightarrow> first_index xs (Max (set xs)) < length xs"
  using argmax_first_max [of xs] argmax_first_index [of xs] by auto



lemma collect_map_Inr:
  "(\<And>x. x \<in> set xs \<Longrightarrow> f x = Inr (g x)) \<Longrightarrow> collect (map f xs) = Inr (map g xs)"
  by (induction xs) simp_all

section \<open>Binary32 is exact below \<open>2^24\<close>\<close>

lemma f32_ulp_small: "n < 2 ^ 24 \<Longrightarrow> f32_ulp n = 1"
  by (simp add: f32_ulp.simps)

lemma round_half_even_1: "round_half_even n (Suc 0) = n"
  by (simp add: round_half_even_def)

lemma f32_of_nat_exact:
  assumes "n \<le> 2 ^ 24"
  shows "f32_of_nat n = n"
proof (cases "n < 2 ^ 24")
  case True
  then show ?thesis
    by (simp add: f32_of_nat_def f32_ulp_small round_half_even_1)
next
  case False
  with assms have "n = 16777216" by simp
  then show ?thesis
    by (simp add: f32_of_nat_def f32_ulp.simps round_half_even_def)
qed

lemma round_half_even_lower: "n div d \<le> round_half_even n d"
  by (simp add: round_half_even_def Let_def)

lemma round_half_even_upper:
  assumes "0 < d"
  shows "real (round_half_even n d) \<le> real n / real d + 1 / 2"
proof -
  define q where "q = n div d"
  define r where "r = n mod d"
  have n: "real n = real q * real d + real r"
    unfolding q_def r_def by (metis div_mult_mod_eq of_nat_add of_nat_mult)
  have d: "0 < real d" using assms by simp
  show ?thesis
  proof (cases "2 * r < d \<or> (2 * r = d \<and> even q)")
    case True
    then have "round_half_even n d = q"
      by (auto simp add: round_half_even_def q_def r_def Let_def)
    moreover have "real q \<le> real n / real d"
      using d n by (simp add: field_simps)
    ultimately show ?thesis by simp
  next
    case False
    then have rhe: "round_half_even n d = q + 1"
      by (simp add: round_half_even_def q_def r_def Let_def)
    from False have "d \<le> 2 * r" by auto
    then have "real d \<le> 2 * real r"
      by (metis of_nat_le_iff of_nat_mult of_nat_numeral)
    then have "(real q + 1) * real d \<le> real n + real d / 2"
      using n by (simp add: algebra_simps)
    then have "real q + 1 \<le> (real n + real d / 2) / real d"
      using d by (simp add: pos_le_divide_eq)
    also have "\<dots> = real n / real d + 1 / 2"
      using d by (simp add: field_simps)
    finally show ?thesis
      by (simp add: rhe)
  qed
qed

lemma f32_scale_spec: "0 < a \<Longrightarrow> 2 ^ 23 * b \<le> a * 2 ^ f32_scale a b"
proof (induction a b rule: f32_scale.induct)
  case (1 a b)
  show ?case
  proof (cases "2 ^ 23 * b \<le> a")
    case True
    then show ?thesis
      by (simp add: f32_scale.simps)
  next
    case False
    with "1.prems" have "2 ^ 23 * b \<le> 2 * a * 2 ^ f32_scale (2 * a) b"
      by (intro "1.IH") auto
    moreover have "f32_scale a b = Suc (f32_scale (2 * a) b)"
      using False "1.prems" by (subst f32_scale.simps) simp
    ultimately show ?thesis
      by (simp add: mult_ac)
  qed
qed

lemma f32_div_floor:
  assumes a: "a < 2 ^ 24" and b: "0 < b"
  shows "\<lfloor>f32_div a b\<rfloor> = int (a div b)"
proof (cases "a = 0")
  case True
  then show ?thesis
    by (simp add: f32_div_def)
next
  case a0: False
  show ?thesis
  proof (cases "2 ^ 23 * b \<le> a")
    case True
    with a have "b < 2" by simp
    with b have b1: "b = 1" by simp
    with a a0 True show ?thesis
      by (simp add: f32_div_def f32_ulp_small round_half_even_1)
  next
    case False
    define k where "k = f32_scale a b"
    define R where "R = round_half_even (a * 2 ^ k) b"
    define Q where "Q = a div b"
    have v: "f32_div a b = real R / 2 ^ k"
      using a0 b False by (simp add: f32_div_def k_def R_def Let_def)
    have sc: "2 ^ 23 * b \<le> a * 2 ^ k"
      unfolding k_def using a0 by (intro f32_scale_spec) simp
    have "Q * b \<le> a"
      unfolding Q_def by simp
    then have "Q * 2 ^ k * b \<le> a * 2 ^ k"
      by (simp add: mult_ac)
    then have "(Q * 2 ^ k * b) div b \<le> (a * 2 ^ k) div b"
      by (rule div_le_mono)
    with b have "Q * 2 ^ k \<le> (a * 2 ^ k) div b"
      by simp
    also have "\<dots> \<le> R"
      unfolding R_def by (rule round_half_even_lower)
    finally have "real (Q * 2 ^ k) \<le> real R"
      by (simp only: of_nat_le_iff)
    then have "real Q * 2 ^ k \<le> real R"
      by simp
    then have lower: "real Q \<le> real R / 2 ^ k"
      by (simp add: pos_le_divide_eq)
    have "a * 2 ^ k < 2 ^ 24 * 2 ^ k"
      using a by simp
    with sc have "2 ^ 23 * b < 2 ^ 24 * 2 ^ k"
      by (rule le_less_trans)
    then have bk: "b < 2 * 2 ^ k"
      by simp
    then have bk': "real b < 2 * 2 ^ k"
      by (metis of_nat_less_iff of_nat_mult of_nat_numeral of_nat_power)
    have "a mod b < b" using b by simp
    then have "a + 1 \<le> (Q + 1) * b"
      unfolding Q_def by (metis Suc_eq_plus1 Suc_leI add.commute add_less_cancel_left div_mult_mod_eq mult.commute mult_Suc)
    then have "real (a + 1) \<le> real ((Q + 1) * b)"
      by (simp only: of_nat_le_iff)
    then have ab: "real a + 1 \<le> (real Q + 1) * real b"
      by (simp add: algebra_simps)
    have rb: "0 < real b" using b by simp
    have "real R \<le> real (a * 2 ^ k) / real b + 1 / 2"
      unfolding R_def using b by (rule round_half_even_upper)
    then have "real R * real b \<le> real a * 2 ^ k + real b / 2"
      using rb by (simp add: field_simps)
    also have "\<dots> < real a * 2 ^ k + 2 ^ k"
      using bk' by simp
    also have "\<dots> = (real a + 1) * 2 ^ k"
      by (simp add: algebra_simps)
    also have "\<dots> \<le> (real Q + 1) * real b * 2 ^ k"
      using ab by (simp add: mult_right_mono)
    finally have "real R * real b < (real Q + 1) * 2 ^ k * real b"
      by (simp add: mult_ac)
    then have "real R < (real Q + 1) * 2 ^ k"
      using rb by simp
    then have upper: "real R / 2 ^ k < real Q + 1"
      by (simp add: pos_divide_less_eq)
    from lower upper have "\<lfloor>real R / 2 ^ k\<rfloor> = int Q"
      by (intro floor_unique) simp_all
    then show ?thesis
      by (simp add: v Q_def)
  qed
qed


section \<open>What the decoder returns\<close>

lemma along_axis2_Inr:
  assumes "\<And>i j. i < N \<Longrightarrow> j < K \<Longrightarrow> f (g i j) = Inr (h i j)"
  shows "along_axis2 f (map (\<lambda>i. map (g i) [0..<K]) [0..<N])
           = Inr (map (\<lambda>i. map (h i) [0..<K]) [0..<N])"
proof -
  have row: "collect (map f (map (g i) [0..<K])) = Inr (map (h i) [0..<K])" if "i < N" for i
  proof -
    have "collect (map (\<lambda>j. f (g i j)) [0..<K]) = Inr (map (h i) [0..<K])"
      using assms that by (intro collect_map_Inr) simp
    then show ?thesis
      by (simp add: o_def)
  qed
  have "collect (map (\<lambda>i. collect (map f (map (g i) [0..<K]))) [0..<N])
          = Inr (map (\<lambda>i. map (h i) [0..<K]) [0..<N])"
    using row by (intro collect_map_Inr) simp
  then show ?thesis
    by (simp add: along_axis2_def o_def)
qed

lemma joint_offset:
  assumes "n < N" "k < K"
  shows "(n * K + k) * M + M \<le> N * K * (M::nat)"
proof -
  have "n * K + k + 1 \<le> n * K + K"
    using assms by simp
  also have "\<dots> = (n + 1) * K"
    by simp
  also have "\<dots> \<le> N * K"
    using assms by (intro mult_le_mono1) simp
  finally have "(n * K + k + 1) * M \<le> N * K * M"
    by (rule mult_le_mono1)
  then show ?thesis
    by (simp add: algebra_simps)
qed

lemma joint_map_length:
  assumes "wf_ndarray4 a" "shape a = (N, K, H, W)" "n < N" "k < K"
  shows "length (joint_map a n k) = H * W"
proof -
  have "length (data a) = N * K * (H * W)"
    using assms by (simp add: wf_ndarray4_def mult.assoc)
  moreover have "(n * K + k) * (H * W) + H * W \<le> N * K * (H * W)"
    using assms by (intro joint_offset)
  ultimately show ?thesis
    using assms by (simp add: joint_map_def)
qed

lemma reshape3_joint_map:
  assumes "wf_ndarray4 a" "shape a = (N, K, H, W)" "0 < N" "0 < K"
  shows "reshape3 a = Inr (map (\<lambda>i. map (joint_map a i) [0..<K]) [0..<N])"
proof -
  have "length (data a) = (H * W) * (N * K)"
    using assms by (simp add: wf_ndarray4_def mult_ac)
  then have "length (data a) div (N * K) = H * W"
    using assms by simp
  then show ?thesis
    using assms by (simp add: reshape3_def joint_map_def Let_def)
qed

lemma get_max_preds_char:
  assumes "wf_ndarray4 a" "shape a = (N, K, H, W)" "0 < N" "0 < K" "0 < H" "0 < W"
  shows "get_max_preds a =
     Inr (map (\<lambda>n. map (\<lambda>k. decode W (joint_first a n k) (joint_max a n k)) [0..<K]) [0..<N],
          map (\<lambda>n. map (joint_max a n) [0..<K]) [0..<N])"
proof -
  have ne: "joint_map a n k \<noteq> []" if "n < N" "k < K" for n k
    using joint_map_length [OF assms(1,2) that] assms(5,6) by auto
  have r: "reshape3 a = Inr (map (\<lambda>i. map (joint_map a i) [0..<K]) [0..<N])"
    using assms by (intro reshape3_joint_map)
  have i: "along_axis2 argmax (map (\<lambda>i. map (joint_map a i) [0..<K]) [0..<N])
             = Inr (map (\<lambda>i. map (joint_first a i) [0..<K]) [0..<N])"
    using ne by (intro along_axis2_Inr) (simp add: argmax_first_index joint_first_def joint_max_def)
  have m: "along_axis2 amax (map (\<lambda>i. map (joint_map a i) [0..<K]) [0..<N])
             = Inr (map (\<lambda>i. map (joint_max a i) [0..<K]) [0..<N])"
    using ne by (intro along_axis2_Inr) (simp add: amax_Max joint_max_def)
  have z: "map2 (map2 (decode W)) (map (\<lambda>i. map (joint_first a i) [0..<K]) [0..<N])
              (map (\<lambda>i. map (joint_max a i) [0..<K]) [0..<N])
            = map (\<lambda>n. map (\<lambda>k. decode W (joint_first a n k) (joint_max a n k)) [0..<K]) [0..<N]"
    by (simp add: map2_map_map)
  show ?thesis
    by (simp add: get_max_preds_def assms(2) r i m z)
qed

lemma get_max_preds_joint:
  assumes "wf_ndarray4 a" "shape a = (N, K, H, W)" "n < N" "k < K" "0 < H" "0 < W"
  shows "\<exists>preds maxvals. get_max_preds a = Inr (preds, maxvals) \<and>
           preds ! n ! k = decode W (joint_first a n k) (joint_max a n k) \<and>
           maxvals ! n ! k = joint_max a n k"
proof -
  from assms have "0 < N" "0 < K" by auto
  from get_max_preds_char [OF assms(1,2) this assms(5,6)] assms(3,4)
  show ?thesis by simp
qed

lemma decode_exact:
  assumes "idx < 2 ^ 24" "0 < W" "W \<le> 2 ^ 24"
  shows "decode W idx v = (if 0 < v then (int (idx mod W), int (idx div W)) else (0, 0))"
  using assms by (simp add: decode_def f32_of_nat_exact f32_div_floor Let_def)

lemma decode_masked: "v \<le> 0 \<Longrightarrow> decode W idx v = (0, 0)"
  by (simp add: decode_def Let_def)


section \<open>Properties of the decoder\<close>

lemma joint_max_eq:
  assumes "i < length xs" "\<forall>j<length xs. j \<noteq> i \<longrightarrow> xs ! j < xs ! i"
  shows "Max (set xs) = xs ! i"
proof (rule Max_eqI)
  show "finite (set xs)" by simp
  show "xs ! i \<in> set xs" using assms(1) by simp
  fix y assume "y \<in> set xs"
  then obtain j where "j < length xs" "xs ! j = y"
    by (auto simp: in_set_conv_nth)
  with assms(2) show "y \<le> xs ! i"
    by (cases "j = i") auto
qed

lemma width_le: "0 < H \<Longrightarrow> H * W \<le> (B::nat) \<Longrightarrow> W \<le> B"
  by (cases H) auto

text \<open>
  C1, amended. For a well-formed batch of shape \<open>[N, K, H, W]\<close> with \<open>H * W \<le> 2^24\<close>, if
  the map of joint \<open>k\<close> of sample \<open>n\<close> has a single strict maximum \<open>m > 0\<close> at the row-major
  flat index \<open>i\<close>, then \<^verbatim>\<open>get_max_preds\<close> returns, for that joint, the confidence \<open>m\<close> and
  the coordinates \<open>x = i mod W\<close>, \<open>y = i div W\<close>.
\<close>

theorem get_max_preds_strict_maximum:
  assumes "wf_ndarray4 a" and "shape a = (N, K, H, W)" and "n < N" and "k < K"
    and "H * W \<le> 2 ^ 24" and "i < H * W"
    and "joint_map a n k ! i = m" and "0 < m"
    and "\<forall>j<H * W. j \<noteq> i \<longrightarrow> joint_map a n k ! j < m"
  shows "\<exists>preds maxvals. get_max_preds a = Inr (preds, maxvals) \<and>
           maxvals ! n ! k = m \<and> preds ! n ! k = (int (i mod W), int (i div W))"
proof -
  from assms(6) have "0 < H * W"
    by linarith
  then have hw: "0 < H" "0 < W"
    by simp_all
  have len: "length (joint_map a n k) = H * W"
    using assms(1-4) by (rule joint_map_length)
  have mx: "joint_max a n k = m"
    unfolding joint_max_def using joint_max_eq [of i "joint_map a n k"] assms(6,7,9) len by simp
  have before: "\<forall>l<i. joint_map a n k ! l \<noteq> m"
  proof (intro allI impI)
    fix l assume "l < i"
    with assms(6) have "l < H * W" "l \<noteq> i" by simp_all
    with assms(9) have "joint_map a n k ! l < m" by simp
    then show "joint_map a n k ! l \<noteq> m" by simp
  qed
  have "joint_first a n k = i"
    unfolding joint_first_def mx using assms(6,7) len before
    by (intro first_index_unique) simp_all
  moreover have "i < 2 ^ 24" "W \<le> 2 ^ 24"
    using assms(5,6) hw width_le [of H W "2 ^ 24"] by simp_all
  ultimately have "decode W (joint_first a n k) (joint_max a n k) = (int (i mod W), int (i div W))"
    using hw assms(8) by (simp add: decode_exact mx)
  with get_max_preds_joint [OF assms(1-4) hw] mx show ?thesis
    by auto
qed

lemma less_6_cases: "j < (6::nat) \<Longrightarrow> j = 0 \<or> j = 1 \<or> j = 2 \<or> j = 3 \<or> j = 4 \<or> j = 5"
  by arith

text \<open>
  An instance of C1: in the 2 by 3 map \<open>0 1 2 / 3 9 4\<close> the maximum 9 is at flat index 4,
  that is at \<open>x = 1\<close>, \<open>y = 1\<close>.
\<close>

theorem get_max_preds_strict_maximum_witness:
  "\<exists>preds maxvals. get_max_preds small_batch = Inr (preds, maxvals) \<and>
     maxvals ! 0 ! 0 = 9 \<and> preds ! 0 ! 0 = (1, 1)"
proof -
  have jm: "joint_map small_batch 0 0 = [0, 1, 2, 3, 9, 4]"
    by (simp add: small_batch_def joint_map_def)
  have strict: "\<forall>j<2 * 3. j \<noteq> 4 \<longrightarrow> joint_map small_batch 0 0 ! j < 9"
    unfolding jm by (auto dest!: less_6_cases)
  have wf: "wf_ndarray4 small_batch"
    by (simp add: small_batch_def wf_ndarray4_def)
  have sh: "shape small_batch = (1, 2, 2, 3)"
    by (simp add: small_batch_def)
  have at: "joint_map small_batch 0 0 ! 4 = 9"
    by (simp add: jm)
  from get_max_preds_strict_maximum [OF wf sh _ _ _ _ at _ strict]
  show ?thesis
    by simp
qed

lemma tall_batch_decoded:
  "get_max_preds (tall_batch i) = Inr ([ [decode 1 i 1] ], [ [1] ])"
proof -
  have wf: "wf_ndarray4 (tall_batch i)"
    by (simp add: tall_batch_def wf_ndarray4_def)
  have jm: "joint_map (tall_batch i) 0 0 = replicate i 0 @ [1]"
    by (simp add: tall_batch_def joint_map_def)
  have mx: "joint_max (tall_batch i) 0 0 = 1"
    unfolding joint_max_def jm by (rule Max_eqI) auto
  have "first_index (replicate i 0 @ [1]) 1 = i"
    by (intro first_index_unique) (auto simp: nth_append)
  then have ix: "joint_first (tall_batch i) 0 0 = i"
    by (simp add: joint_first_def mx jm)
  from get_max_preds_char [OF wf, of 1 1 "Suc i" 1] show ?thesis
    by (simp add: tall_batch_def [symmetric] mx ix) (simp add: tall_batch_def)
qed

lemma decode_16777217: "decode (Suc 0) 16777217 1 = (0, 16777216)"
  by (simp add: decode_def f32_of_nat_def f32_div_def f32_ulp.simps round_half_even_def)

lemma decode_16777219: "decode (Suc 0) 16777219 1 = (0, 16777220)"
  by (simp add: decode_def f32_of_nat_def f32_div_def f32_ulp.simps round_half_even_def)

text \<open>
  C1 as stated, for every batch, fails beyond \<open>2^24\<close> entries per map. A map of height
  16777218 and width 1 that is zero except for a one in its last row, at flat index 16777217,
  has a single strict positive maximum there; the index is cast to binary32 as 16777216, and
  the decoder returns \<open>y = 16777216\<close> where the claim says 16777217.
\<close>

theorem get_max_preds_strict_maximum_counterexample:
  "get_max_preds \<lparr>shape = (1, 1, 16777218, 1), data = replicate 16777217 0 @ [1]\<rparr>
     = Inr ([ [(0, 16777216)] ], [ [1] ]) \<and>
   (0, 16777216) \<noteq> (int (16777217 mod 1), int (16777217 div 1))"
  using tall_batch_decoded [of 16777217] by (simp add: tall_batch_def decode_16777217)


lemma joint_map_subset: "set (joint_map a n k) \<subseteq> set (data a)"
proof -
  obtain N K H W where "shape a = (N, K, H, W)"
    by (cases "shape a") auto
  then have "joint_map a n k = take (H * W) (drop ((n * K + k) * (H * W)) (data a))"
    by (simp add: joint_map_def)
  then show ?thesis
    by (metis set_drop_subset set_take_subset subset_trans)
qed

text \<open>
  C4. For every joint of a well-formed non-empty batch, the confidence returned is the maximum
  of the joint's map; when that maximum is at most zero the coordinates are \<open>(0, 0)\<close>; and in
  an all-zero batch the confidence is zero and the coordinates are \<open>(0, 0)\<close>.
\<close>

theorem get_max_preds_masked:
  assumes "wf_ndarray4 a" and "shape a = (N, K, H, W)" and "n < N" and "k < K"
    and "0 < H" and "0 < W"
  shows "\<exists>preds maxvals. get_max_preds a = Inr (preds, maxvals) \<and>
           maxvals ! n ! k = Max (set (joint_map a n k)) \<and>
           (maxvals ! n ! k \<le> 0 \<longrightarrow> preds ! n ! k = (0, 0)) \<and>
           (set (data a) \<subseteq> {0} \<longrightarrow> maxvals ! n ! k = 0 \<and> preds ! n ! k = (0, 0))"
proof -
  from get_max_preds_joint [OF assms] obtain preds maxvals where r:
    "get_max_preds a = Inr (preds, maxvals)"
    "preds ! n ! k = decode W (joint_first a n k) (joint_max a n k)"
    "maxvals ! n ! k = joint_max a n k"
    by blast
  have masked: "preds ! n ! k = (0, 0)" if "maxvals ! n ! k \<le> 0"
    using that r by (simp add: decode_masked)
  have zero: "maxvals ! n ! k = 0" if z: "set (data a) \<subseteq> {0}"
  proof -
    have "length (joint_map a n k) = H * W"
      using assms(1-4) by (rule joint_map_length)
    with assms(5,6) have ne: "joint_map a n k \<noteq> []"
      by auto
    then have "Max (set (joint_map a n k)) \<in> set (joint_map a n k)"
      by (intro Max_in) simp_all
    with joint_map_subset [of a n k] z have "Max (set (joint_map a n k)) = 0"
      by auto
    with r(3) show ?thesis
      by (simp add: joint_max_def)
  qed
  from r masked zero show ?thesis
    by (auto simp: joint_max_def)
qed

text \<open>
  An instance of C4: an all-zero batch of two joints.
\<close>

theorem get_max_preds_masked_witness:
  "\<exists>preds maxvals. get_max_preds zero_batch = Inr (preds, maxvals) \<and>
     maxvals ! 0 ! 1 = 0 \<and> preds ! 0 ! 1 = (0, 0)"
proof -
  have wf: "wf_ndarray4 zero_batch"
    by (simp add: zero_batch_def wf_ndarray4_def)
  have sh: "shape zero_batch = (1, 2, 2, 2)"
    by (simp add: zero_batch_def)
  have z: "set (data zero_batch) \<subseteq> {0}"
    by (simp add: zero_batch_def)
  from get_max_preds_masked [OF wf sh, of 0 1] z show ?thesis
    by auto
qed

text \<open>
  C5, amended. For a well-formed batch of shape \<open>[N, K, H, W]\<close> with \<open>H \<ge> 1\<close>, \<open>W \<ge> 1\<close>
  and \<open>H * W \<le> 2^24\<close>, \<^verbatim>\<open>get_max_preds\<close> returns, and every coordinate pair \<open>(x, y)\<close> it
  returns satisfies \<open>0 \<le> x < W\<close> and \<open>0 \<le> y < H\<close>.
\<close>

theorem get_max_preds_in_range:
  assumes "wf_ndarray4 a" and "shape a = (N, K, H, W)" and "n < N" and "k < K"
    and "1 \<le> H" and "1 \<le> W" and "H * W \<le> 2 ^ 24"
  shows "\<exists>preds maxvals. get_max_preds a = Inr (preds, maxvals) \<and>
           0 \<le> fst (preds ! n ! k) \<and> fst (preds ! n ! k) < int W \<and>
           0 \<le> snd (preds ! n ! k) \<and> snd (preds ! n ! k) < int H"
proof -
  from assms(5,6) have hw: "0 < H" "0 < W"
    by simp_all
  from get_max_preds_joint [OF assms(1-4) hw] obtain preds maxvals where r:
    "get_max_preds a = Inr (preds, maxvals)"
    "preds ! n ! k = decode W (joint_first a n k) (joint_max a n k)"
    by blast
  have len: "length (joint_map a n k) = H * W"
    using assms(1-4) by (rule joint_map_length)
  with hw have ne: "joint_map a n k \<noteq> []"
    by auto
  have i: "joint_first a n k < H * W"
    using first_index_less [OF ne] len by (simp add: joint_first_def joint_max_def)
  with assms(7) have i24: "joint_first a n k < 2 ^ 24"
    by simp
  have w24: "W \<le> 2 ^ 24"
    using hw(1) assms(7) by (rule width_le)
  have x: "joint_first a n k mod W < W"
    using hw by simp
  have y: "joint_first a n k div W < H"
    using i by (intro less_mult_imp_div_less)
  from x y have "0 \<le> fst (decode W (joint_first a n k) (joint_max a n k)) \<and>
      fst (decode W (joint_first a n k) (joint_max a n k)) < int W \<and>
      0 \<le> snd (decode W (joint_first a n k) (joint_max a n k)) \<and>
      snd (decode W (joint_first a n k) (joint_max a n k)) < int H"
    using hw by (simp add: decode_exact [OF i24 hw(2) w24])
  with r show ?thesis
    by auto
qed

text \<open>
  An instance of C5: the second joint of the small batch, of height 2 and width 3.
\<close>

theorem get_max_preds_in_range_witness:
  "\<exists>preds maxvals. get_max_preds small_batch = Inr (preds, maxvals) \<and>
     0 \<le> fst (preds ! 0 ! 1) \<and> fst (preds ! 0 ! 1) < 3 \<and>
     0 \<le> snd (preds ! 0 ! 1) \<and> snd (preds ! 0 ! 1) < 2"
proof -
  have wf: "wf_ndarray4 small_batch"
    by (simp add: small_batch_def wf_ndarray4_def)
  have sh: "shape small_batch = (1, 2, 2, 3)"
    by (simp add: small_batch_def)
  from get_max_preds_in_range [OF wf sh, of 0 1] show ?thesis
    by simp
qed

text \<open>
  C5 as stated, for any shape, fails beyond \<open>2^24\<close> entries per map. A map of height
  16777220 and width 1 with its maximum in the last row, at flat index 16777219, is decoded
  to \<open>y = 16777220\<close>: binary32 rounds the index up to the height itself.
\<close>

theorem get_max_preds_in_range_counterexample:
  "get_max_preds \<lparr>shape = (1, 1, 16777220, 1), data = replicate 16777219 0 @ [1]\<rparr>
     = Inr ([ [(0, 16777220)] ], [ [1] ]) \<and>
   \<not> snd (0 :: int, 16777220 :: int) < int 16777220"
  using tall_batch_decoded [of 16777219] by (simp add: tall_batch_def decode_16777219)





section \<open>The piecewise schedule at the default sizes\<close>

lemma bitlen_0: "bitlen 0 = 0"
  by (simp add: bitlen.simps)

lemma bitlen_1: "bitlen (Suc 0) = Suc 0"
  by (simp add: bitlen.simps)

lemma bitlen_numeral: "bitlen (numeral k) = Suc (bitlen (numeral k div 2))"
  by (subst bitlen.simps) simp

lemmas b64_eval =
  b64_of_ratio_def b64_of_scaled_def b64_exponent_def b64_mul_def b64_add_def b64_pow_def
  b64_div_int_def py_int_def round_half_even_def Let_def bitlen_0 bitlen_1 bitlen_numeral

lemma upt_0_3: "[0..<3] = [0, 1, 2]"
  by (simp add: upt_rec)

lemma steps_default: "steps_per_epoch 144406 32 = Inr 4513"
  by (simp add: steps_per_epoch_def b64_eval)

lemma lr_drop_ratio_value: "lr_drop_ratio = B64 7205759403792794 (- 56)"
  by (simp add: lr_drop_ratio_def b64_eval)

lemma lr_drop_ratio_pow_0: "b64_pow lr_drop_ratio 0 = B64 4503599627370496 (- 52)"
  by (simp add: lr_drop_ratio_value) (simp add: b64_eval)

lemma lr_drop_ratio_pow_1: "b64_pow lr_drop_ratio (Suc 0) = B64 7205759403792794 (- 56)"
  by (simp add: lr_drop_ratio_value) (simp add: b64_eval)

lemma lr_drop_ratio_pow_2: "b64_pow lr_drop_ratio (Suc (Suc 0)) = B64 5764607523034236 (- 59)"
  by (simp add: lr_drop_ratio_value) (simp add: b64_eval)

lemma default_lr_value: "b64_of_ratio 1 1000 = B64 4611686018427388 (- 62)"
  by (simp add: b64_eval)

lemma default_rates:
  "b64_mul (B64 4611686018427388 (- 62)) (B64 4503599627370496 (- 52))
     = B64 4611686018427388 (- 62)"
  "b64_mul (B64 4611686018427388 (- 62)) (B64 7205759403792794 (- 56))
     = B64 7378697629483821 (- 66)"
  "b64_mul (B64 4611686018427388 (- 62)) (B64 5764607523034236 (- 59))
     = B64 5902958103587058 (- 69)"
  by (simp_all add: b64_eval)

lemma schedule_default:
  "optimizer_setting \<lparr>p_total_images = 144406, p_lr = base_lr, p_num_epochs = n,
       p_learning_strategy = \<lparr>ls_name = ''piecewise_decay'', ls_batch_size = 32\<rparr>\<rparr>
     = Inr (AdamOptimizer [410683, 546073]
         [b64_mul base_lr (B64 4503599627370496 (- 52)),
          b64_mul base_lr (B64 7205759403792794 (- 56)),
          b64_mul base_lr (B64 5764607523034236 (- 59))])"
  by (simp add: optimizer_setting_def steps_default upt_0_3
        lr_drop_ratio_pow_0 lr_drop_ratio_pow_1 lr_drop_ratio_pow_2)

text \<open>
  C2, as the specification states it, fails. With 144406 images and batches of 32 the code
  does not compute 4514 steps per epoch, and the boundaries are not 410774 and 546194. The
  third learning rate is not \<^verbatim>\<open>lr * 0.01\<close> either: at the default \<^verbatim>\<open>lr = 0.001\<close> it is
  \<^verbatim>\<open>0.001 * 0.1 ** 2\<close>, one unit in the last place above \<^verbatim>\<open>0.001 * 0.01\<close>.
\<close>

theorem piecewise_schedule_counterexample:
  "steps_per_epoch 144406 32 \<noteq> Inr 4514 \<and>
   optimizer_setting \<lparr>p_total_images = 144406, p_lr = b64_of_ratio 1 1000, p_num_epochs = 140,
       p_learning_strategy = \<lparr>ls_name = ''piecewise_decay'', ls_batch_size = 32\<rparr>\<rparr>
     \<noteq> Inr (AdamOptimizer [410774, 546194]
           [b64_of_ratio 1 1000,
            b64_mul (b64_of_ratio 1 1000) (b64_of_ratio 1 10),
            b64_mul (b64_of_ratio 1 1000) (b64_of_ratio 1 100)]) \<and>
   b64_mul (b64_of_ratio 1 1000) (b64_pow lr_drop_ratio 2)
     \<noteq> b64_mul (b64_of_ratio 1 1000) (b64_of_ratio 1 100)"
proof -
  have hundredth: "b64_of_ratio 1 100 = B64 5764607523034235 (- 59)"
    by (simp add: b64_eval)
  have "b64_mul (B64 4611686018427388 (- 62)) (B64 5764607523034235 (- 59))
          = B64 5902958103587057 (- 69)"
    by (simp add: b64_eval)
  moreover have "b64_pow lr_drop_ratio 2 = B64 5764607523034236 (- 59)"
    using lr_drop_ratio_pow_2 by (simp add: numeral_2_eq_2)
  ultimately show ?thesis
    by (simp add: schedule_default steps_default default_lr_value default_rates hundredth)
qed

text \<open>
  C2, amended. With 144406 images and batches of 32 the piecewise strategy computes
  4513 = floor(144406 / 32) + 1 steps per epoch and the boundaries 4513 * 91 = 410683 and
  4513 * 121 = 546073. The three learning rates are \<^verbatim>\<open>lr * 0.1 ** i\<close> for \<open>i = 0, 1, 2\<close>
  in binary64, for every base rate and epoch count, where \<^verbatim>\<open>0.1 ** 0\<close> is 1,
  \<^verbatim>\<open>0.1 ** 1\<close> is \<^verbatim>\<open>0.1\<close> and \<^verbatim>\<open>0.1 ** 2\<close> is 0.010000000000000002
  (5764607523034236 / 2^59), not \<^verbatim>\<open>0.01\<close>. At the default \<^verbatim>\<open>lr = 0.001\<close> the rates are
  0.001, 0.0001 and 1.0000000000000003e-05 (5902958103587058 / 2^69).
\<close>

theorem piecewise_schedule_default:
  "steps_per_epoch 144406 32 = Inr (144406 div 32 + 1) \<and>
   steps_per_epoch 144406 32 = Inr 4513 \<and>
   optimizer_setting \<lparr>p_total_images = 144406, p_lr = base_lr, p_num_epochs = n,
       p_learning_strategy = \<lparr>ls_name = ''piecewise_decay'', ls_batch_size = 32\<rparr>\<rparr>
     = Inr (AdamOptimizer [410683, 546073]
         [b64_mul base_lr (b64_pow lr_drop_ratio 0),
          b64_mul base_lr (b64_pow lr_drop_ratio 1),
          b64_mul base_lr (b64_pow lr_drop_ratio 2)]) \<and>
   b64_pow lr_drop_ratio 0 = b64_of_ratio 1 1 \<and>
   b64_pow lr_drop_ratio 1 = b64_of_ratio 1 10 \<and>
   b64_pow lr_drop_ratio 2 = B64 5764607523034236 (- 59) \<and>
   b64_of_ratio 1 100 = B64 5764607523034235 (- 59) \<and>
   optimizer_setting \<lparr>p_total_images = 144406, p_lr = b64_of_ratio 1 1000, p_num_epochs = n,
       p_learning_strategy = \<lparr>ls_name = ''piecewise_decay'', ls_batch_size = 32\<rparr>\<rparr>
     = Inr (AdamOptimizer [410683, 546073]
         [b64_of_ratio 1 1000, b64_of_ratio 1 10000, B64 5902958103587058 (- 69)])"
proof -
  have one: "b64_of_ratio 1 (Suc 0) = B64 4503599627370496 (- 52)"
    by (simp add: b64_eval)
  have tenth: "b64_of_ratio 1 10 = B64 7205759403792794 (- 56)"
    by (simp add: b64_eval)
  have hundredth: "b64_of_ratio 1 100 = B64 5764607523034235 (- 59)"
    by (simp add: b64_eval)
  have small: "b64_of_ratio 1 10000 = B64 7378697629483821 (- 66)"
    by (simp add: b64_eval)
  have p2: "b64_pow lr_drop_ratio 2 = B64 5764607523034236 (- 59)"
    using lr_drop_ratio_pow_2 by (simp add: numeral_2_eq_2)
  show ?thesis
    by (simp add: schedule_default steps_default lr_drop_ratio_pow_0 lr_drop_ratio_pow_1
          p2 one tenth hundredth small default_lr_value default_rates)
qed

section \<open>The visualisation composer and the training loop\<close>

lemma amin_Min: "xs \<noteq> [] \<Longrightarrow> amin xs = Inr (Min (set xs))"
  by (cases xs) (simp_all add: amin_def Min.set_eq_fold [symmetric])

lemma norm_denominator_pos: "mn \<le> mx \<Longrightarrow> 0 < norm_denominator mn mx"
  by (simp add: norm_denominator_def)

text \<open>
  C10. With \<^verbatim>\<open>normalize=True\<close>, an empty image batch raises before any division. For every
  other batch the minimum is at most the maximum, the denominator \<open>max - min + 1e-5\<close> is
  strictly positive, it equals \<open>1e-5\<close> when the batch is constant, and every pixel is divided
  by it: no division by zero occurs.
\<close>

theorem normalization_never_divides_by_zero:
  "(px = [] \<longrightarrow> (\<exists>e. normalize_pixels px = Inl e)) \<and>
   (px \<noteq> [] \<longrightarrow>
      (\<exists>mn mx. amin px = Inr mn \<and> amax px = Inr mx \<and> mn \<le> mx \<and>
         0 < norm_denominator mn mx \<and>
         (mx = mn \<longrightarrow> norm_denominator mn mx = 1 / 100000) \<and>
         normalize_pixels px = Inr (map (\<lambda>x. Some ((x - mn) / norm_denominator mn mx)) px)))"
proof (cases "px = []")
  case True
  then show ?thesis
    by (simp add: normalize_pixels_def amin_def)
next
  case False
  then have "Min (set px) \<le> Max (set px)"
    by (intro Min_le_iff [THEN iffD2] bexI [of _ "Max (set px)"]) simp_all
  then have pos: "0 < norm_denominator (Min (set px)) (Max (set px))"
    by (rule norm_denominator_pos)
  then have "normalize_pixels px =
      Inr (map (\<lambda>x. Some ((x - Min (set px)) / norm_denominator (Min (set px)) (Max (set px)))) px)"
    using False by (simp add: normalize_pixels_def amin_Min amax_Max np_divide_def)
  with False pos \<open>Min (set px) \<le> Max (set px)\<close> show ?thesis
    by (simp add: amin_Min amax_Max) (simp add: norm_denominator_def)
qed

text \<open>
  An instance of C10: a constant batch, and the empty one.
\<close>

theorem normalization_never_divides_by_zero_witness:
  "normalize_pixels [3, 3, 3] = Inr [Some 0, Some 0, Some 0] \<and>
   (0::real) < norm_denominator 3 3 \<and> norm_denominator 3 3 = 1 / 100000 \<and>
   (\<exists>e. normalize_pixels [] = Inl e)"
proof -
  have a: "amin [3, 3, 3] = Inr 3" "amax [3, 3, 3] = Inr 3"
    by (simp_all add: amin_def amax_def)
  from normalization_never_divides_by_zero [of "[3, 3, 3]"] a
    normalization_never_divides_by_zero [of "[]"]
  show ?thesis
    by auto
qed

lemma normalization_px: "px \<noteq> [] \<Longrightarrow> \<exists>ys. normalize_pixels px = Inr ys"
  by (simp add: normalize_pixels_def amin_Min amax_Max)

lemma draw_samples_no_imwrite:
  "Cv2ImWrite f d \<notin> set (snd (draw_samples img preds K ds is))"
proof (induction "is")
  case Nil
  then show ?case by simp
next
  case (Cons i rest)
  then show ?case
    by (auto simp: draw_joint_def Let_def split: prod.splits)
qed

lemma draw_samples_calls:
  "draw_samples img preds K ds is = (r, calls) \<Longrightarrow> Cv2ImWrite f d \<notin> set calls"
  using draw_samples_no_imwrite [of f d img preds K ds "is"] by simp

lemma draw_samples_ok:
  assumes "img_shape img = (count, h, w)" "0 < h * w" "\<forall>i\<in>set is. i < count"
  shows "fst (draw_samples img preds K ds is) = Inr ()"
  using assms(3)
proof (induction "is")
  case Nil
  then show ?case by simp
next
  case (Cons i rest)
  then show ?case
    using assms(1,2) by (auto simp: Let_def split: prod.splits)
qed

text \<open>
  C8. For heatmaps of shape \<open>[batch_size, num_joints, heatmap_height, heatmap_width]\<close>,
  every image that \<^verbatim>\<open>save_batch_heatmaps\<close> hands to \<^verbatim>\<open>cv2.imwrite\<close>'s encoder goes to the
  given file and has exactly the dimensions
  \<open>(batch_size * heatmap_height, (num_joints + 1) * heatmap_width, 3)\<close>. For a well-formed
  non-empty heatmap batch with at least \<open>batch_size\<close> non-empty frames and a file name that
  OpenCV has an encoder for, the function returns normally and hands that image to the
  encoder; for a file name without an encoder it raises and writes nothing.
\<close>

theorem save_batch_heatmaps_grid_shape:
  assumes "shape hm = (N, K, H, W)"
  shows "(\<forall>f d. Cv2ImWrite f d \<in> set (snd (save_batch_heatmaps has_writer img hm file nz))
            \<longrightarrow> f = file \<and> d = (N * H, (K + 1) * W, 3)) \<and>
         (wf_ndarray4 hm \<and> 0 < N \<and> 0 < K \<and> 0 < H \<and> 0 < W \<and> wf_image_batch img \<and>
          N \<le> fst (img_shape img) \<and> 0 < fst (snd (img_shape img)) * snd (snd (img_shape img)) \<and>
          has_writer file
            \<longrightarrow> fst (save_batch_heatmaps has_writer img hm file nz) = Inr () \<and>
                 Cv2ImWrite file (N * H, (K + 1) * W, 3)
                   \<in> set (snd (save_batch_heatmaps has_writer img hm file nz))) \<and>
         (\<not> has_writer file
            \<longrightarrow> fst (save_batch_heatmaps has_writer img hm file nz) \<noteq> Inr () \<and>
                 (\<forall>f d. Cv2ImWrite f d
                    \<notin> set (snd (save_batch_heatmaps has_writer img hm file nz))))"
proof (intro conjI allI impI)
  fix f d
  assume "Cv2ImWrite f d \<in> set (snd (save_batch_heatmaps has_writer img hm file nz))"
  then have "f = file \<and> d = (N * H, (K + 1) * W, 3)"
    using assms
    by (auto simp: save_batch_heatmaps_def Let_def dest: draw_samples_calls
          split: sum.splits prod.splits if_splits)
  then show "f = file" "d = (N * H, (K + 1) * W, 3)"
    by simp_all
next
  assume g: "wf_ndarray4 hm \<and> 0 < N \<and> 0 < K \<and> 0 < H \<and> 0 < W \<and> wf_image_batch img \<and>
      N \<le> fst (img_shape img) \<and> 0 < fst (snd (img_shape img)) * snd (snd (img_shape img)) \<and>
      has_writer file"
  obtain c h w where sh: "img_shape img = (c, h, w)"
    by (cases "img_shape img") auto
  with g have c: "N \<le> c" "0 < h * w"
    by simp_all
  from g sh c have "length (img_data img) = c * 3 * h * w" "0 < c"
    by (simp_all add: wf_image_batch_def)
  with c have ne: "img_data img \<noteq> []"
    by auto
  from normalization_px [OF ne] obtain ys where ys: "normalize_pixels (img_data img) = Inr ys"
    by blast
  from g assms obtain preds maxvals where p: "get_max_preds hm = Inr (preds, maxvals)"
    using get_max_preds_char [of hm N K H W] by auto
  have d: "fst (draw_samples img preds K (W, H) [0..<N]) = Inr ()"
    using sh c by (intro draw_samples_ok [of img c h w]) auto
  then obtain calls where calls: "draw_samples img preds K (W, H) [0..<N] = (Inr (), calls)"
    by (cases "draw_samples img preds K (W, H) [0..<N]") auto
  have "save_batch_heatmaps has_writer img hm file nz
          = (Inr (), calls @ [Cv2ImWrite file (N * H, (K + 1) * W, 3)])"
    using assms ys p calls g by (simp add: save_batch_heatmaps_def)
  then show "fst (save_batch_heatmaps has_writer img hm file nz) = Inr ()"
    "Cv2ImWrite file (N * H, (K + 1) * W, 3)
       \<in> set (snd (save_batch_heatmaps has_writer img hm file nz))"
    by simp_all
next
  assume "\<not> has_writer file"
  then show "fst (save_batch_heatmaps has_writer img hm file nz) \<noteq> Inr ()"
    using assms
    by (auto simp: save_batch_heatmaps_def Let_def split: sum.splits prod.splits if_splits)
next
  fix f d
  assume "\<not> has_writer file"
  then show "Cv2ImWrite f d \<notin> set (snd (save_batch_heatmaps has_writer img hm file nz))"
    using assms
    by (auto simp: save_batch_heatmaps_def Let_def dest: draw_samples_calls
          split: sum.splits prod.splits if_splits)
qed

text \<open>
  An instance of C8: one frame and one joint of height 2 and width 2 give a grid of 2 by 4,
  written to \<open>visualization@train.jpg\<close>; the name \<open>visualization\<close> has no encoder, and the
  call raises.
\<close>

theorem save_batch_heatmaps_grid_shape_witness:
  "fst (save_batch_heatmaps jpg_only frames tied_batch ''visualization@train.jpg'' True) = Inr () \<and>
   Cv2ImWrite ''visualization@train.jpg'' (1 * 2, (1 + 1) * 2, 3)
     \<in> set (snd (save_batch_heatmaps jpg_only frames tied_batch ''visualization@train.jpg'' True)) \<and>
   fst (save_batch_heatmaps jpg_only frames tied_batch ''visualization'' True) \<noteq> Inr ()"
proof -
  have sh: "shape tied_batch = (1, 1, 2, 2)"
    by (simp add: tied_batch_def)
  have g: "wf_ndarray4 tied_batch \<and> (0::nat) < 1 \<and> (0::nat) < 1 \<and> (0::nat) < 2 \<and> (0::nat) < 2 \<and>
      wf_image_batch frames \<and> 1 \<le> fst (img_shape frames) \<and>
      0 < fst (snd (img_shape frames)) * snd (snd (img_shape frames)) \<and>
      jpg_only ''visualization@train.jpg''"
    by (simp add: tied_batch_def wf_ndarray4_def frames_def wf_image_batch_def jpg_only_def)
  have n: "\<not> jpg_only ''visualization''"
    by (simp add: jpg_only_def)
  from save_batch_heatmaps_grid_shape [OF sh, of jpg_only frames "''visualization@train.jpg''" True] g
    save_batch_heatmaps_grid_shape [OF sh, of jpg_only frames "''visualization''" True] n
  show ?thesis
    by blast
qed

lemma select_dataset_unsupported:
  "a_dataset a \<noteq> ''coco'' \<Longrightarrow> a_dataset a \<noteq> ''mpii'' \<Longrightarrow>
     select_dataset a = Inl (ValueError (''The dataset '' @ a_dataset a @ '' is not supported yet.''))"
  by (simp add: select_dataset_def)

lemma train_prefix:
  assumes "select_dataset a = Inr (rd, IMAGE_SIZE, HEATMAP_SIZE, a')"
  shows "take 2 (snd (train batches a))
           = [PrintArguments a', LayersData ''image'' [3, IMAGE_SIZE ! 1, IMAGE_SIZE ! 0] ]"
  using assms by (simp add: train_def Let_def split: sum.splits)

text \<open>
  C3. In \<^verbatim>\<open>train\<close>, the dataset \<open>coco\<close> resolves \<^verbatim>\<open>kp_dim\<close> to 17 and \<^verbatim>\<open>IMAGE_SIZE\<close> to
  \<open>[288, 384]\<close>, the dataset \<open>mpii\<close> resolves them to 16 and \<open>[384, 384]\<close>, and both values
  reach the first framework calls; any other dataset makes \<^verbatim>\<open>train\<close> raise the
  \<^verbatim>\<open>ValueError\<close>.
\<close>

theorem train_dataset_selection:
  "(a_dataset a = ''coco'' \<longrightarrow>
      select_dataset a
        = Inr (CocoReader, [288, 384], [72, 96], a\<lparr>a_kp_dim := 17, a_total_images := 144406\<rparr>) \<and>
      take 2 (snd (train batches a))
        = [PrintArguments (a\<lparr>a_kp_dim := 17, a_total_images := 144406\<rparr>),
           LayersData ''image'' [3, 384, 288] ]) \<and>
   (a_dataset a = ''mpii'' \<longrightarrow>
      select_dataset a
        = Inr (MpiiReader, [384, 384], [96, 96], a\<lparr>a_kp_dim := 16, a_total_images := 22246\<rparr>) \<and>
      take 2 (snd (train batches a))
        = [PrintArguments (a\<lparr>a_kp_dim := 16, a_total_images := 22246\<rparr>),
           LayersData ''image'' [3, 384, 384] ]) \<and>
   (a_dataset a \<noteq> ''coco'' \<and> a_dataset a \<noteq> ''mpii'' \<longrightarrow>
      train batches a
        = (Inl (ValueError (''The dataset '' @ a_dataset a @ '' is not supported yet.'')), []))"
proof (intro conjI impI)
  assume c: "a_dataset a = ''coco''"
  then show s: "select_dataset a
      = Inr (CocoReader, [288, 384], [72, 96], a\<lparr>a_kp_dim := 17, a_total_images := 144406\<rparr>)"
    by (simp add: select_dataset_def)
  from train_prefix [OF s] show "take 2 (snd (train batches a))
      = [PrintArguments (a\<lparr>a_kp_dim := 17, a_total_images := 144406\<rparr>),
         LayersData ''image'' [3, 384, 288] ]"
    by simp
next
  assume m: "a_dataset a = ''mpii''"
  then show s: "select_dataset a
      = Inr (MpiiReader, [384, 384], [96, 96], a\<lparr>a_kp_dim := 16, a_total_images := 22246\<rparr>)"
    by (simp add: select_dataset_def)
  from train_prefix [OF s] show "take 2 (snd (train batches a))
      = [PrintArguments (a\<lparr>a_kp_dim := 16, a_total_images := 22246\<rparr>),
         LayersData ''image'' [3, 384, 384] ]"
    by simp
next
  assume "a_dataset a \<noteq> ''coco'' \<and> a_dataset a \<noteq> ''mpii''"
  then show "train batches a
      = (Inl (ValueError (''The dataset '' @ a_dataset a @ '' is not supported yet.'')), [])"
    by (simp add: train_def select_dataset_unsupported)
qed

text \<open>
  Instances of C3: the default arguments with each of \<open>coco\<close>, \<open>mpii\<close> and \<open>imagenet\<close>.
\<close>

theorem train_dataset_selection_witness:
  "select_dataset (default_args\<lparr>a_dataset := ''coco''\<rparr>)
     = Inr (CocoReader, [288, 384], [72, 96],
            default_args\<lparr>a_dataset := ''coco'', a_kp_dim := 17, a_total_images := 144406\<rparr>) \<and>
   select_dataset default_args
     = Inr (MpiiReader, [384, 384], [96, 96],
            default_args\<lparr>a_kp_dim := 16, a_total_images := 22246\<rparr>) \<and>
   train (\<lambda>p. 1) (default_args\<lparr>a_dataset := ''imagenet''\<rparr>)
     = (Inl (ValueError ''The dataset imagenet is not supported yet.''), [])"
  using train_dataset_selection [of "default_args\<lparr>a_dataset := ''coco''\<rparr>" "\<lambda>p. 1"]
    train_dataset_selection [of default_args "\<lambda>p. 1"]
    train_dataset_selection [of "default_args\<lparr>a_dataset := ''imagenet''\<rparr>" "\<lambda>p. 1"]
  by (simp add: default_args_def)

text \<open>
  C7. For every dataset name other than \<open>coco\<close> and \<open>mpii\<close>, \<^verbatim>\<open>train\<close> raises the
  \<^verbatim>\<open>ValueError\<close>, and its trace holds no call to \<^verbatim>\<open>optimizer_setting\<close> and no optimizer.
\<close>

theorem train_unsupported_dataset:
  assumes "a_dataset a \<noteq> ''coco''" and "a_dataset a \<noteq> ''mpii''"
  shows "fst (train batches a)
           = Inl (ValueError (''The dataset '' @ a_dataset a @ '' is not supported yet.'')) \<and>
         (\<forall>ps. OptimizerSetting ps \<notin> set (snd (train batches a))) \<and>
         (\<forall>opt. Minimize opt \<notin> set (snd (train batches a)))"
  using assms by (simp add: train_def select_dataset_unsupported)

text \<open>
  An instance of C7: the dataset \<open>imagenet\<close>.
\<close>

theorem train_unsupported_dataset_witness:
  "fst (train (\<lambda>p. 1) (default_args\<lparr>a_dataset := ''imagenet''\<rparr>))
     = Inl (ValueError ''The dataset imagenet is not supported yet.'') \<and>
   OptimizerSetting \<lparr>p_total_images = 144406, p_lr = b64_of_ratio 1 1000, p_num_epochs = 140,
       p_learning_strategy = \<lparr>ls_name = ''piecewise_decay'', ls_batch_size = 32\<rparr>\<rparr>
     \<notin> set (snd (train (\<lambda>p. 1) (default_args\<lparr>a_dataset := ''imagenet''\<rparr>)))"
  using train_unsupported_dataset [of "default_args\<lparr>a_dataset := ''imagenet''\<rparr>" "\<lambda>p. 1"]
  by (simp add: default_args_def)

lemma train_supported_dataset:
  assumes "a_dataset a = ''coco'' \<or> a_dataset a = ''mpii''"
  shows "\<exists>ps. OptimizerSetting ps \<in> set (snd (train batches a))"
  using assms by (auto simp: train_def select_dataset_def Let_def split: sum.splits)

lemma save_in_batch_step:
  "SaveBatchHeatmaps f nz \<in> set (batch_step pass_id batch_id) \<longleftrightarrow>
     batch_id mod 10 = 0 \<and> f = ''visualization@train.jpg'' \<and> nz"
  by (auto simp: batch_step_def)

lemma save_in_epoch:
  "SaveBatchHeatmaps f nz \<in> set (epoch dir n pass_id) \<Longrightarrow> f = ''visualization@train.jpg''"
  by (auto simp: epoch_def save_in_batch_step)

text \<open>
  C9. A step of the inner loop calls \<^verbatim>\<open>save_batch_heatmaps\<close> if and only if the batch index
  is a multiple of 10, and then with the file name \<open>visualization@train.jpg\<close>; in a whole
  run of \<^verbatim>\<open>train\<close> every such call names that same file.
\<close>

theorem visualization_every_tenth_batch:
  "(SaveBatchHeatmaps f nz \<in> set (batch_step pass_id batch_id) \<longleftrightarrow>
      batch_id mod 10 = 0 \<and> f = ''visualization@train.jpg'' \<and> nz) \<and>
   (\<forall>g m. SaveBatchHeatmaps g m \<in> set (snd (train batches a)) \<longrightarrow> g = ''visualization@train.jpg'')"
proof
  show "SaveBatchHeatmaps f nz \<in> set (batch_step pass_id batch_id) \<longleftrightarrow>
      batch_id mod 10 = 0 \<and> f = ''visualization@train.jpg'' \<and> nz"
    by (rule save_in_batch_step)
  show "\<forall>g m. SaveBatchHeatmaps g m \<in> set (snd (train batches a)) \<longrightarrow> g = ''visualization@train.jpg''"
    by (auto simp: train_def Let_def dest: save_in_epoch split: sum.splits prod.splits option.splits if_splits)
qed

text \<open>
  Instances of C9: batch 20 writes, batch 7 does not, and a run of one epoch with one
  batch writes \<open>visualization@train.jpg\<close>.
\<close>

theorem visualization_every_tenth_batch_witness:
  "SaveBatchHeatmaps ''visualization@train.jpg'' True \<in> set (batch_step 0 20) \<and>
   SaveBatchHeatmaps ''visualization@train.jpg'' True \<notin> set (batch_step 0 7) \<and>
   SaveBatchHeatmaps ''visualization@train.jpg'' True \<in> set (snd (train (\<lambda>p. 1) short_run))"
proof -
  have "SaveBatchHeatmaps ''visualization@train.jpg'' True \<in> set (snd (train (\<lambda>p. 1) short_run))"
    by (simp add: train_def short_run_def default_args_def select_dataset_def optimizer_setting_def
        epoch_def batch_step_def)
  with visualization_every_tenth_batch [of "''visualization@train.jpg''" True 0 20 "\<lambda>p. 1" short_run]
    visualization_every_tenth_batch [of "''visualization@train.jpg''" True 0 7 "\<lambda>p. 1" short_run]
  show ?thesis
    by simp
qed

end
